theory Spec2Isabelle
  imports Complex_Main
begin

section \<open>Strings and numbers as the program sees them\<close>

text \<open>
  Decimal rendering of a non-negative integer, as a template literal or
  \<^verbatim>\<open>toString()\<close> renders it.
\<close>

definition digit :: "nat \<Rightarrow> char" where
  "digit d = ''0123456789'' ! (d mod 10)"

fun toString :: "nat \<Rightarrow> string" where
  "toString n = (if n < 10 then [digit n] else toString (n div 10) @ [digit (n mod 10)])"

declare toString.simps [simp del]

text \<open>
  Modelled from the spec: \<^verbatim>\<open>nPad\<close> comes from the package
  \<^verbatim>\<open>@inrixia/helpers\<close>, which is not among the sources; the specification says the
  month, day, hour, minute and second are zero-padded to width 2.
\<close>

definition nPad :: "nat \<Rightarrow> string" where
  "nPad n = (let s = toString n in replicate (2 - length s) CHR ''0'' @ s)"

text \<open>
  \<^verbatim>\<open>GetSubstitution\<close> of the language standard for a pattern without capture
  groups: in a replacement string \<^verbatim>\<open>$$\<close> stands for a dollar sign, \<^verbatim>\<open>$&\<close> for
  the matched text, \<^verbatim>\<open>$`\<close> for the text before the match and \<^verbatim>\<open>$'\<close> for the text
  after it; every other character, also a dollar sign followed by a digit, stands for
  itself.
\<close>

fun getSubstitution :: "string \<Rightarrow> string \<Rightarrow> string \<Rightarrow> string \<Rightarrow> string" where
  "getSubstitution matched pre post [] = []"
| "getSubstitution matched pre post [c] = [c]"
| "getSubstitution matched pre post (c # d # r) =
     (if c = CHR ''$'' \<and> d = CHR ''$'' then CHR ''$'' # getSubstitution matched pre post r
      else if c = CHR ''$'' \<and> d = CHR ''&'' then matched @ getSubstitution matched pre post r
      else if c = CHR ''$'' \<and> d = CHR 0x60 then pre @ getSubstitution matched pre post r
      else if c = CHR ''$'' \<and> d = CHR 0x27 then post @ getSubstitution matched pre post r
      else c # getSubstitution matched pre post (d # r))"

text \<open>
  \<^verbatim>\<open>s.replace(new RegExp(pat, 'g'), repl)\<close> for a pattern made of literal characters
  only (none of the patterns of this program has a character that is special in a
  regular expression): the matches are found from left to right and do not overlap, and
  each is replaced by the expansion of \<open>repl\<close>. The argument \<open>pre\<close> is the part of
  the subject already scanned. An empty pattern is not modelled (the program has none):
  the subject is returned as it is.
\<close>

function replaceFrom :: "string \<Rightarrow> string \<Rightarrow> string \<Rightarrow> string \<Rightarrow> string" where
  "replaceFrom pat repl pre [] = []"
| "replaceFrom pat repl pre (c # cs) =
     (if pat \<noteq> [] \<and> take (length pat) (c # cs) = pat
      then getSubstitution pat pre (drop (length pat) (c # cs)) repl
             @ replaceFrom pat repl (pre @ pat) (drop (length pat) (c # cs))
      else c # replaceFrom pat repl (pre @ [c]) cs)"
  by pat_completeness auto
termination
  by (relation "measure (\<lambda>(pat, repl, pre, s). length s)") auto

definition replaceAll :: "string \<Rightarrow> string \<Rightarrow> string \<Rightarrow> string" where
  "replaceAll pat repl s = replaceFrom pat repl [] s"

text \<open>\<^verbatim>\<open>s.split('/')\<close>: the pieces between the separators, at least one piece.\<close>

fun split :: "char \<Rightarrow> string \<Rightarrow> string list" where
  "split sep [] = [[]]"
| "split sep (c # cs) =
     (if c = sep then [] # split sep cs
      else (case split sep cs of p # ps \<Rightarrow> (c # p) # ps | [] \<Rightarrow> [[c]]))"

text \<open>\<^verbatim>\<open>pieces.join('/')\<close>.\<close>

fun join :: "string \<Rightarrow> string list \<Rightarrow> string" where
  "join sep [] = []"
| "join sep [p] = p"
| "join sep (p # q # ps) = p @ sep @ join sep (q # ps)"

section \<open>The video and its surroundings\<close>

text \<open>
  The release date as the local-time getters of \<^verbatim>\<open>Date\<close> read it: \<open>month\<close> is
  what \<^verbatim>\<open>getMonth()\<close> returns (January is 0), \<open>millis\<close> is \<^verbatim>\<open>getTime()\<close>.
\<close>

record date =
  fullYear :: nat
  month :: nat
  day :: nat
  hours :: nat
  minutes :: nat
  seconds :: nat
  millis :: int

text \<open>
  The fields of the class \<^verbatim>\<open>Video\<close>. Of the owning channel the video reads the
  title; the remote path of the thumbnail is \<open>None\<close> when the post has none.
\<close>

record video =
  guid :: string
  title :: string
  description :: string
  releaseDate :: date
  thumbnail :: "string option"
  videoAttachments :: "string list"
  channelTitle :: string

text \<open>The settings the class reads (\<^verbatim>\<open>settings\<close> and \<^verbatim>\<open>args\<close> of helpers.js).\<close>

record settings =
  filePathFormatting :: string
  considerAllNonPartialDownloaded :: bool
  downloadArtwork :: bool
  saveNfo :: bool
  artworkSuffix :: string
  downloadEdge :: string
  postProcessingCommand :: string
  headless :: bool

text \<open>
  The disk as \<^verbatim>\<open>fs.stat\<close> sees it: the size in bytes of every path that exists.
\<close>

type_synonym files = "string \<rightharpoonup> nat"

text \<open>
  What the operations do to the outside world, in the order they do it: folders made,
  files written, stamped or removed, requests sent, processes started.
\<close>

datatype event =
    Mkdir string
  | FetchArtwork string string
  | WriteFile string
  | Utimes string
  | Delivery string
  | Transfer string string
  | ExecFile string "string list"
  | Unlink string
  | MarkVideoCompleted string int

text \<open>
  What the operations read and change: the disk, the expected size that the channel's
  database keeps for this video (\<open>None\<close> is \<^verbatim>\<open>undefined\<close>), and the trace of
  what was done.
\<close>

record world =
  files :: files
  expectedSize :: "int option"
  trace :: "event list"

section \<open>Path formatting\<close>

definition videoTitle :: "video \<Rightarrow> string" where
  "videoTitle v =
     replaceAll [CHR 0x5C] '' '' (replaceAll ''/'' '' '' (replaceAll '' - '' '' '' (title v)))"

definition formatLookup :: "video \<Rightarrow> (string \<times> string) list" where
  "formatLookup v =
    [(''%channelTitle%'', channelTitle v),
     (''%year%'', toString (fullYear (releaseDate v))),
     (''%month%'', nPad (month (releaseDate v) + 1)),
     (''%day%'', nPad (day (releaseDate v))),
     (''%hour%'', nPad (hours (releaseDate v))),
     (''%minute%'', nPad (minutes (releaseDate v))),
     (''%second%'', nPad (seconds (releaseDate v))),
     (''%videoTitle%'', videoTitle v)]"

definition formatString :: "video \<Rightarrow> string \<Rightarrow> string" where
  "formatString v s = fold (\<lambda>(match, val) str. replaceAll match val str) (formatLookup v) s"

definition fullPath :: "settings \<Rightarrow> video \<Rightarrow> string" where
  "fullPath st v = formatString v (filePathFormatting st)"

definition folderPath :: "settings \<Rightarrow> video \<Rightarrow> string" where
  "folderPath st v = join ''/'' (butlast (split CHR ''/'' (fullPath st v)))"

text \<open>
  \<open>sanitize\<close> is the function of the package \<^verbatim>\<open>sanitize-filename\<close>, a parameter
  of the model.
\<close>

definition filePath :: "(string \<Rightarrow> string) \<Rightarrow> settings \<Rightarrow> video \<Rightarrow> string" where
  "filePath sanitize st v =
     folderPath st v @ ''/'' @ sanitize (last (split CHR ''/'' (fullPath st v)))"

text \<open>
  The suffix of a part's file names. The index is a position in \<open>videoAttachments\<close>,
  which \<^verbatim>\<open>for ... in\<close> gives as a string and unary plus turns into a number.
\<close>

definition multiPartSuffix :: "video \<Rightarrow> nat \<Rightarrow> string" where
  "multiPartSuffix v attachmentIndex =
     (if length (videoAttachments v) \<noteq> 1 then '' - Part '' @ toString (attachmentIndex + 1)
      else [])"

definition partPath :: "(string \<Rightarrow> string) \<Rightarrow> settings \<Rightarrow> video \<Rightarrow> nat \<Rightarrow> string \<Rightarrow> string" where
  "partPath sanitize st v i extension =
     filePath sanitize st v @ multiPartSuffix v i @ ''.'' @ extension"

section \<open>State derived from file sizes\<close>

text \<open>A path that \<^verbatim>\<open>fs.stat\<close> rejects is observed with the size -1.\<close>

definition getFileBytes :: "files \<Rightarrow> string \<Rightarrow> int" where
  "getFileBytes fs path = (case fs path of None \<Rightarrow> - 1 | Some n \<Rightarrow> int n)"

definition fileBytes :: "(string \<Rightarrow> string) \<Rightarrow> settings \<Rightarrow> files \<Rightarrow> video \<Rightarrow> string \<Rightarrow> int" where
  "fileBytes sanitize st fs v extension =
     fold (\<lambda>i bytes. bytes + getFileBytes fs (partPath sanitize st v i extension))
       [0..<length (videoAttachments v)] 0"

definition isMuxed :: "(string \<Rightarrow> string) \<Rightarrow> settings \<Rightarrow> world \<Rightarrow> video \<Rightarrow> bool" where
  "isMuxed sanitize st w v =
     (let fileBytes = fileBytes sanitize st (files w) v ''mp4'' in
      if considerAllNonPartialDownloaded st then fileBytes \<noteq> - 1
      else Some fileBytes = expectedSize w)"

definition isDownloaded :: "(string \<Rightarrow> string) \<Rightarrow> settings \<Rightarrow> world \<Rightarrow> video \<Rightarrow> bool" where
  "isDownloaded sanitize st w v =
     (isMuxed sanitize st w v
      \<or> Some (fileBytes sanitize st (files w) v ''partial'') = expectedSize w)"

text \<open>
  Following the specification's words, for comparison with \<open>fileBytes\<close>: the sum of
  the sizes of the files that exist, a missing file counting 0.
\<close>

definition spec_fileBytes :: "(string \<Rightarrow> string) \<Rightarrow> settings \<Rightarrow> files \<Rightarrow> video \<Rightarrow> string \<Rightarrow> int" where
  "spec_fileBytes sanitize st fs v extension =
     (\<Sum>i\<leftarrow>[0..<length (videoAttachments v)].
        case fs (partPath sanitize st v i extension) of None \<Rightarrow> 0 | Some n \<Rightarrow> int n)"

section \<open>The delivery ticket and the choice of a quality\<close>

record edge =
  hostname :: string

record qualityLevel =
  name :: string

text \<open>
  \<^verbatim>\<open>cdnInfo\<close>: \<open>edges\<close> is \<open>None\<close> when the field is \<^verbatim>\<open>undefined\<close>; \<open>uri\<close>,
  \<open>token\<close> and \<open>qualityLevels\<close> are the fields of \<^verbatim>\<open>cdnInfo.resource\<close>.
\<close>

record ticket =
  edges :: "edge list option"
  uri :: string
  token :: string
  qualityLevels :: "qualityLevel list"

text \<open>
  What the program gets from its runtime, its libraries and the remote service:
  \<^item> \<open>sanitize\<close>, the function of the package \<^verbatim>\<open>sanitize-filename\<close>;
  \<^item> \<open>htmlToText\<close>, the function of the package \<^verbatim>\<open>html-to-text\<close>;
  \<^item> \<open>toNumber\<close>, what unary plus makes of a string: \<open>Some x\<close> for a string that
    denotes the number \<open>x\<close>, \<open>None\<close> for one that gives \<^verbatim>\<open>NaN\<close>;
  \<^item> \<open>random\<close>, the value of \<^verbatim>\<open>Math.random()\<close> in the loop's round for an
    attachment, at least 0 and less than 1;
  \<^item> \<open>cdnDelivery\<close>, the ticket that \<^verbatim>\<open>fApi.cdn.delivery('download', id)\<close> answers;
  \<^item> \<open>execFile\<close>, what running a program with arguments does to the disk: the files
    after it, or the text of its error stream when it fails;
  \<^item> \<open>fsError\<close>, whether the file system rejects a call that makes a folder or
    writes or stamps a file, in a given world: the code of the error (\<^verbatim>\<open>ENOENT\<close>
    for a path that does not exist), or \<open>None\<close> when the call succeeds.
\<close>

record platform =
  sanitize :: "string \<Rightarrow> string"
  htmlToText :: "string \<Rightarrow> string"
  toNumber :: "string \<Rightarrow> int option"
  random :: "nat \<Rightarrow> rat"
  cdnDelivery :: "string \<Rightarrow> ticket"
  execFile :: "files \<Rightarrow> string \<Rightarrow> string list \<Rightarrow> string + files"
  fsError :: "world \<Rightarrow> event \<Rightarrow> string option"

text \<open>
  The conversion of the example platform: the value of a string of decimal digits, the
  form of the quality labels that the service sends (\<^verbatim>\<open>"1080"\<close>), and \<open>None\<close>
  for every other string. It is what unary plus gives for one to fifteen digits and for
  labels such as \<^verbatim>\<open>auto\<close> and \<^verbatim>\<open>4k\<close>, the strings it is used on; it is not the
  conversion of the other strings that unary plus reads as numbers (the empty string,
  white space, signs, fractions, exponents, other radixes, longer digit strings).
\<close>

fun decimalFrom :: "int \<Rightarrow> string \<Rightarrow> int option" where
  "decimalFrom acc [] = Some acc"
| "decimalFrom acc (c # cs) =
     (if c \<in> set ''0123456789''
      then decimalFrom (10 * acc + int (of_char c) - 48) cs else None)"

definition decimal :: "string \<Rightarrow> int option" where
  "decimal s = (if s = [] then None else decimalFrom 0 s)"

text \<open>\<^verbatim>\<open>xs[i]\<close>: \<^verbatim>\<open>undefined\<close> (\<open>None\<close>) outside the array.\<close>

definition elementAt :: "'a list \<Rightarrow> nat \<Rightarrow> 'a option" where
  "elementAt xs i = (if i < length xs then Some (xs ! i) else None)"

text \<open>
  The comparison function \<^verbatim>\<open>(a, b) => +b - +a\<close>; a result that is \<^verbatim>\<open>NaN\<close> counts
  as 0 for \<^verbatim>\<open>sort\<close>.
\<close>

definition descending :: "(string \<Rightarrow> int option) \<Rightarrow> string \<Rightarrow> string \<Rightarrow> int" where
  "descending toNum a b = (case (toNum b, toNum a) of (Some y, Some x) \<Rightarrow> y - x | _ \<Rightarrow> 0)"

text \<open>
  \<^verbatim>\<open>Array.prototype.sort\<close> with a comparison function, as the runtime (Node, whose
  engine is V8) does it for an array of fewer than 64 elements: find the run at the
  start of the array, reverse it when it descends strictly, then put every later
  element in its place in the sorted part by binary search. (For a longer array the
  engine merges several such runs; with a consistent comparison function that gives
  the same order.) The functions follow the engine's \<^verbatim>\<open>CountAndMakeRun\<close> and
  \<^verbatim>\<open>BinaryInsertionSort\<close>; \<open>cmp x y\<close> is the comparison function called on \<open>x\<close> and
  \<open>y\<close> in this order.
\<close>

fun extendRun :: "('a \<Rightarrow> 'a \<Rightarrow> int) \<Rightarrow> bool \<Rightarrow> 'a \<Rightarrow> 'a list \<Rightarrow> 'a list \<times> 'a list" where
  "extendRun cmp isDescending previousElement [] = ([], [])"
| "extendRun cmp isDescending previousElement (currentElement # rest) =
     (if (if isDescending then cmp currentElement previousElement \<ge> 0
          else cmp currentElement previousElement < 0)
      then ([], currentElement # rest)
      else (case extendRun cmp isDescending currentElement rest of
              (run, remaining) \<Rightarrow> (currentElement # run, remaining)))"

text \<open>The run at the start, in ascending order of the comparison, and what follows it.\<close>

fun countAndMakeRun :: "('a \<Rightarrow> 'a \<Rightarrow> int) \<Rightarrow> 'a list \<Rightarrow> 'a list \<times> 'a list" where
  "countAndMakeRun cmp [] = ([], [])"
| "countAndMakeRun cmp [x] = ([x], [])"
| "countAndMakeRun cmp (elementHigh # elementLow # rest) =
     (case extendRun cmp (cmp elementLow elementHigh < 0) elementLow rest of
        (run, remaining) \<Rightarrow>
          (if cmp elementLow elementHigh < 0 then rev (elementHigh # elementLow # run)
           else elementHigh # elementLow # run,
           remaining))"

text \<open>The binary search for the place of \<open>pivot\<close> among \<open>ys\<close>, between two positions.\<close>

function insertionPoint :: "('a \<Rightarrow> 'a \<Rightarrow> int) \<Rightarrow> 'a \<Rightarrow> 'a list \<Rightarrow> nat \<Rightarrow> nat \<Rightarrow> nat" where
  "insertionPoint cmp pivot ys left right =
     (if left < right
      then (if cmp pivot (ys ! (left + (right - left) div 2)) < 0
            then insertionPoint cmp pivot ys left (left + (right - left) div 2)
            else insertionPoint cmp pivot ys (left + (right - left) div 2 + 1) right)
      else left)"
  by pat_completeness auto
termination
  by (relation "measure (\<lambda>(cmp, pivot, ys, left, right). right - left)") auto

declare insertionPoint.simps [simp del]

definition binaryInsert :: "('a \<Rightarrow> 'a \<Rightarrow> int) \<Rightarrow> 'a \<Rightarrow> 'a list \<Rightarrow> 'a list" where
  "binaryInsert cmp pivot ys =
     take (insertionPoint cmp pivot ys 0 (length ys)) ys
       @ pivot # drop (insertionPoint cmp pivot ys 0 (length ys)) ys"

definition sortBy :: "('a \<Rightarrow> 'a \<Rightarrow> int) \<Rightarrow> 'a list \<Rightarrow> 'a list" where
  "sortBy cmp xs =
     (case countAndMakeRun cmp xs of
        (run, remaining) \<Rightarrow> fold (binaryInsert cmp) remaining run)"

definition availableQualities :: "platform \<Rightarrow> ticket \<Rightarrow> string list" where
  "availableQualities pf cdnInfo =
     sortBy (descending (toNumber pf)) (map name (qualityLevels cdnInfo))"

text \<open>The quality to use; \<open>None\<close> is \<^verbatim>\<open>undefined\<close>, the first element of no labels.\<close>

definition downloadQuality :: "platform \<Rightarrow> ticket \<Rightarrow> string \<Rightarrow> string option" where
  "downloadQuality pf cdnInfo quality =
     (if quality \<in> set (availableQualities pf cdnInfo) then Some quality
      else elementAt (availableQualities pf cdnInfo) 0)"

section \<open>Download\<close>

text \<open>
  The errors the operations end with. \<open>TypeError\<close> is the runtime's error for reading
  or writing a property of \<^verbatim>\<open>undefined\<close>; \<open>NoSuchFile\<close> is the file system's for a
  path that does not exist, in the last loop of \<^verbatim>\<open>muxffmpegMetadata\<close>; \<open>FsError\<close>
  is the file system's, with its code, for a call that \<^verbatim>\<open>download\<close> makes before its
  loop.
\<close>

datatype error =
    AlreadyDownloaded string
  | NoEdgesAvailable
  | TypeError
  | NotDownloaded string "int option" int
  | MuxValidationFailed string "int option" int
  | TranscodeFailed string
  | NoSuchFile string
  | FsError string

text \<open>
  A started transfer: the address requested, the file it is piped to, and whether its
  first progress report will set the expected size.
\<close>

record transfer =
  url :: string
  target :: string
  setsExpectedSize :: bool

text \<open>
  \<^verbatim>\<open>s.replace(pat, repl)\<close> with a string pattern: the first occurrence only. An empty
  pattern is not modelled (the program has none).
\<close>

fun replaceFirstFrom :: "string \<Rightarrow> string \<Rightarrow> string \<Rightarrow> string \<Rightarrow> string" where
  "replaceFirstFrom pat repl pre [] = []"
| "replaceFirstFrom pat repl pre (c # cs) =
     (if pat \<noteq> [] \<and> take (length pat) (c # cs) = pat
      then getSubstitution pat pre (drop (length pat) (c # cs)) repl
             @ drop (length pat) (c # cs)
      else c # replaceFirstFrom pat repl (pre @ [c]) cs)"

definition replaceFirst :: "string \<Rightarrow> string \<Rightarrow> string \<Rightarrow> string" where
  "replaceFirst pat repl s = replaceFirstFrom pat repl [] s"

definition logged :: "event list \<Rightarrow> world \<Rightarrow> world" where
  "logged es w = w\<lparr>trace := trace w @ es\<rparr>"

text \<open>
  One round of the loop over the attachments. The edge is \<open>None\<close> when the index
  falls outside the list of edges, and then setting or reading its host name is a
  \<open>TypeError\<close>. The result comes with the world as the round leaves it, also when
  it fails.
\<close>

definition downloadPart ::
  "platform \<Rightarrow> settings \<Rightarrow> video \<Rightarrow> string \<Rightarrow> nat \<Rightarrow> world \<Rightarrow> (error + transfer) \<times> world" where
  "downloadPart pf st v quality i w =
     (let cdnInfo = cdnDelivery pf (videoAttachments v ! i);
          w1 = logged [Delivery (videoAttachments v ! i)] w
      in case edges cdnInfo of
           None \<Rightarrow> (Inl NoEdgesAvailable, w1)
         | Some es \<Rightarrow>
            (case elementAt es (nat \<lfloor>random pf i * of_nat (length es)\<rfloor>) of
               None \<Rightarrow> (Inl TypeError, w1)
             | Some e \<Rightarrow>
                (let host = (if downloadEdge st \<noteq> [] then downloadEdge st else hostname e);
                     q = (case downloadQuality pf cdnInfo quality of
                            None \<Rightarrow> ''undefined'' | Some l \<Rightarrow> l);
                     address = ''https://'' @ host
                       @ replaceFirst ''{token}'' (token cdnInfo)
                           (replaceFirst ''{qualityLevels}'' q (uri cdnInfo));
                     file = partPath (sanitize pf) st v i ''partial''
                 in (Inr \<lparr>url = address, target = file,
                            setsExpectedSize = (expectedSize w = None)\<rparr>,
                     logged [Transfer address file] w1))))"

fun downloadParts ::
  "platform \<Rightarrow> settings \<Rightarrow> video \<Rightarrow> string \<Rightarrow> nat list \<Rightarrow> transfer list \<Rightarrow> world
     \<Rightarrow> (error + transfer list) \<times> world" where
  "downloadParts pf st v quality [] downloadRequests w = (Inr downloadRequests, w)"
| "downloadParts pf st v quality (i # rest) downloadRequests w =
     (case downloadPart pf st v quality i w of
        (Inl e, w') \<Rightarrow> (Inl e, w')
      | (Inr r, w') \<Rightarrow> downloadParts pf st v quality rest (downloadRequests @ [r]) w')"

text \<open>
  \<^verbatim>\<open>download(quality)\<close>. The second parameter, \<^verbatim>\<open>allowRangeQuery\<close>, is read only
  by code that is commented out. The calls that are awaited before the loop, making the
  folder and writing and stamping the sidecar file, end the download with the file
  system's error when it rejects them. The artwork is fetched by a stream that is not
  awaited. The content of the artwork and of the sidecar file is not modelled, only that
  they are fetched and written.
\<close>

definition download ::
  "platform \<Rightarrow> settings \<Rightarrow> video \<Rightarrow> string \<Rightarrow> world \<Rightarrow> (error + transfer list) \<times> world" where
  "download pf st v quality w =
     (if isDownloaded (sanitize pf) st w v then (Inl (AlreadyDownloaded (title v)), w)
      else
        case fsError pf w (Mkdir (folderPath st v)) of
          Some code \<Rightarrow> (Inl (FsError code), w)
        | None \<Rightarrow>
           (let w1 = logged [Mkdir (folderPath st v)] w;
                w2 = (case thumbnail v of
                        Some path \<Rightarrow>
                          if downloadArtwork st
                          then logged [FetchArtwork path
                                 (filePath (sanitize pf) st v @ artworkSuffix st @ ''.png'')] w1
                          else w1
                      | None \<Rightarrow> w1);
                nfo = filePath (sanitize pf) st v @ ''.nfo''
            in if saveNfo st
               then (case fsError pf w2 (WriteFile nfo) of
                       Some code \<Rightarrow> (Inl (FsError code), w2)
                     | None \<Rightarrow>
                        (case fsError pf (logged [WriteFile nfo] w2) (Utimes nfo) of
                           Some code \<Rightarrow> (Inl (FsError code), logged [WriteFile nfo] w2)
                         | None \<Rightarrow>
                             downloadParts pf st v quality [0..<length (videoAttachments v)] []
                               (logged [WriteFile nfo, Utimes nfo] w2)))
               else downloadParts pf st v quality [0..<length (videoAttachments v)] [] w2))"

section \<open>Finishing a download\<close>

definition markCompleted :: "platform \<Rightarrow> settings \<Rightarrow> video \<Rightarrow> world \<Rightarrow> (error + unit) \<times> world" where
  "markCompleted pf st v w =
     (if \<not> isMuxed (sanitize pf) st w v
      then (Inl (MuxValidationFailed (title v) (expectedSize w)
                   (fileBytes (sanitize pf) st (files w) v ''mp4'')), w)
      else (Inr (), logged [MarkVideoCompleted (guid v) (millis (releaseDate v))] w))"

text \<open>
  A promise that has not been awaited, holding the value it will give. As a condition
  it is an object, and every object counts as true.
\<close>

datatype 'a promise = Promise 'a

fun toBoolean :: "'a promise \<Rightarrow> bool" where
  "toBoolean (Promise x) = True"

definition ffmpegArguments :: "platform \<Rightarrow> settings \<Rightarrow> video \<Rightarrow> nat \<Rightarrow> string list" where
  "ffmpegArguments pf st v i =
     [''-i'', partPath (sanitize pf) st v i ''partial'',
      ''-metadata'', ''title='' @ title v @ multiPartSuffix v i,
      ''-metadata'', ''AUTHOR='' @ channelTitle v,
      ''-metadata'', ''YEAR='' @ toString (fullYear (releaseDate v)),
      ''-metadata'', ''date='' @ toString (fullYear (releaseDate v))
         @ nPad (month (releaseDate v) + 1) @ nPad (day (releaseDate v)),
      ''-metadata'', ''description='' @ htmlToText pf (description v),
      ''-metadata'', ''synopsis='' @ htmlToText pf (description v),
      ''-c:a'', ''copy'', ''-c:v'', ''copy'',
      partPath (sanitize pf) st v i ''mp4'']"

text \<open>
  The transcoder runs once for every part. The runs are started together and joined;
  the model takes them in the order of the parts, starts every one of them, and keeps
  the first failure.
\<close>

fun transcodeParts ::
  "platform \<Rightarrow> settings \<Rightarrow> video \<Rightarrow> nat list \<Rightarrow> error option \<Rightarrow> world \<Rightarrow> error option \<times> world" where
  "transcodeParts pf st v [] failure w = (failure, w)"
| "transcodeParts pf st v (i # rest) failure w =
     (let program = (if headless st then ''./ffmpeg'' else ''./db/ffmpeg'');
          w1 = logged [ExecFile program (ffmpegArguments pf st v i)] w
      in case execFile pf (files w1) program (ffmpegArguments pf st v i) of
           Inl stderr \<Rightarrow>
             transcodeParts pf st v rest
               (case failure of None \<Rightarrow> Some (TranscodeFailed stderr) | Some e \<Rightarrow> Some e) w1
         | Inr fs \<Rightarrow> transcodeParts pf st v rest failure (w1\<lparr>files := fs\<rparr>))"

text \<open>
  The last loop: remove the part's \<^verbatim>\<open>.partial\<close> file and stamp its \<^verbatim>\<open>.mp4\<close> file;
  either call fails on a path that does not exist.
\<close>

fun cleanupParts ::
  "platform \<Rightarrow> settings \<Rightarrow> video \<Rightarrow> nat list \<Rightarrow> world \<Rightarrow> (error + unit) \<times> world" where
  "cleanupParts pf st v [] w = (Inr (), w)"
| "cleanupParts pf st v (i # rest) w =
     (let partial = partPath (sanitize pf) st v i ''partial'';
          mp4 = partPath (sanitize pf) st v i ''mp4''
      in if files w partial = None then (Inl (NoSuchFile partial), w)
         else
           let w1 = logged [Unlink partial] (w\<lparr>files := (files w)(partial := None)\<rparr>)
           in if files w1 mp4 = None then (Inl (NoSuchFile mp4), w1)
              else cleanupParts pf st v rest (logged [Utimes mp4] w1))"

text \<open>
  \<^verbatim>\<open>muxffmpegMetadata()\<close>. Its first condition negates the promise that
  \<^verbatim>\<open>isDownloaded()\<close> returns, not the promise's value.
\<close>

definition muxffmpegMetadata :: "platform \<Rightarrow> settings \<Rightarrow> video \<Rightarrow> world \<Rightarrow> (error + unit) \<times> world" where
  "muxffmpegMetadata pf st v w =
     (if \<not> toBoolean (Promise (isDownloaded (sanitize pf) st w v))
      then (Inl (NotDownloaded (title v) (expectedSize w)
                   (fileBytes (sanitize pf) st (files w) v ''partial'')), w)
      else
        case transcodeParts pf st v [0..<length (videoAttachments v)] None w of
          (Some e, w1) \<Rightarrow> (Inl e, w1)
        | (None, w1) \<Rightarrow>
            (let w2 = w1\<lparr>expectedSize :=
                         Some (fileBytes (sanitize pf) st (files w1) v ''mp4'')\<rparr>
             in case markCompleted pf st v w2 of
                  (Inl e, w3) \<Rightarrow> (Inl e, w3)
                | (Inr u, w3) \<Rightarrow>
                    cleanupParts pf st v [0..<length (videoAttachments v)] w3))"

section \<open>Prompts\<close>




section \<open>Example inputs\<close>

definition exampleDate :: date where
  "exampleDate = \<lparr>fullYear = 2023, month = 0, day = 5, hours = 9, minutes = 30,
                   seconds = 0, millis = 1672911000000\<rparr>"

definition onePart :: video where
  "onePart = \<lparr>guid = ''g1'', title = ''Ep 1 - Intro'', description = ''Hello'',
               releaseDate = exampleDate, thumbnail = None, videoAttachments = [''a1''],
               channelTitle = ''Linus''\<rparr>"

definition twoParts :: video where
  "twoParts = onePart\<lparr>guid := ''g2'', videoAttachments := [''a1'', ''a2'']\<rparr>"

definition bySize :: settings where
  "bySize = \<lparr>filePathFormatting = ''%channelTitle%/%videoTitle%'',
              considerAllNonPartialDownloaded = False, downloadArtwork = False,
              saveNfo = False, artworkSuffix = [], downloadEdge = [],
              postProcessingCommand = [], headless = False\<rparr>"

definition byExistence :: settings where
  "byExistence = bySize\<lparr>considerAllNonPartialDownloaded := True\<rparr>"

definition emptyDisk :: world where
  "emptyDisk = \<lparr>files = Map.empty, expectedSize = None, trace = []\<rparr>"

definition exampleTicket :: ticket where
  "exampleTicket = \<lparr>edges = Some [\<lparr>hostname = ''edge01.example''\<rparr>],
                     uri = ''/Videos/{qualityLevels}.mp4?token={token}'', token = ''t0'',
                     qualityLevels = [\<lparr>name = ''1080''\<rparr>, \<lparr>name = ''720''\<rparr>, \<lparr>name = ''480''\<rparr>]\<rparr>"

text \<open>
  An example platform: names pass through \<open>sanitize\<close> unchanged, the labels are read
  as decimals, the transcoder copies the size of its input file to its output file
  and fails when the input is missing, and the file system rejects making a folder of
  the empty path and nothing else.
\<close>

definition examplePlatform :: platform where
  "examplePlatform =
     \<lparr>sanitize = (\<lambda>s. s), htmlToText = (\<lambda>s. s), toNumber = decimal, random = (\<lambda>i. 0),
      cdnDelivery = (\<lambda>a. exampleTicket),
      execFile = (\<lambda>fs program arguments.
         case fs (arguments ! 1) of
           None \<Rightarrow> Inl ''No such file or directory''
         | Some n \<Rightarrow> Inr (fs(last arguments \<mapsto> n))),
      fsError = (\<lambda>w call. if call = Mkdir [] then Some ''ENOENT'' else None)\<rparr>"

text \<open>A single-part video whose \<^verbatim>\<open>.partial\<close> file holds 500 bytes.\<close>

definition partialOnly :: world where
  "partialOnly = emptyDisk\<lparr>files := [''Linus/Ep 1 Intro.partial'' \<mapsto> 500]\<rparr>"

definition partialComplete :: world where
  "partialComplete = partialOnly\<lparr>expectedSize := Some 500\<rparr>"

text \<open>
  Of a two-part video with an expected size of 500 bytes, only the first part's
  \<^verbatim>\<open>.partial\<close> file: of 501 bytes, and of 500 bytes.
\<close>

definition firstPartOver :: world where
  "firstPartOver = emptyDisk\<lparr>files := [''Linus/Ep 1 Intro - Part 1.partial'' \<mapsto> 501],
                              expectedSize := Some 500\<rparr>"

definition firstPartExact :: world where
  "firstPartExact = emptyDisk\<lparr>files := [''Linus/Ep 1 Intro - Part 1.partial'' \<mapsto> 500],
                               expectedSize := Some 500\<rparr>"

text \<open>Of a two-part video, only the first part's container, of 100 bytes.\<close>

definition firstOfTwo :: files where
  "firstOfTwo = [''Linus/Ep 1 Intro - Part 1.mp4'' \<mapsto> 100]"

definition shuffledTicket :: ticket where
  "shuffledTicket =
     exampleTicket\<lparr>qualityLevels := [\<lparr>name = ''480''\<rparr>, \<lparr>name = ''1080''\<rparr>, \<lparr>name = ''720''\<rparr>]\<rparr>"

text \<open>A ticket with a label that is no number.\<close>

definition mixedTicket :: ticket where
  "mixedTicket = exampleTicket\<lparr>qualityLevels := [\<lparr>name = ''auto''\<rparr>, \<lparr>name = ''720''\<rparr>]\<rparr>"

definition noEdges :: platform where
  "noEdges = examplePlatform\<lparr>cdnDelivery := (\<lambda>a. exampleTicket\<lparr>edges := Some []\<rparr>)\<rparr>"

text \<open>A template without a folder.\<close>

definition flat :: settings where
  "flat = bySize\<lparr>filePathFormatting := ''%videoTitle%''\<rparr>"

definition dollars :: video where
  "dollars = onePart\<lparr>title := ''Save $$ now''\<rparr>"

section \<open>Evaluating the examples\<close>

lemmas path_defs = partPath_def filePath_def folderPath_def fullPath_def formatString_def
  formatLookup_def videoTitle_def replaceAll_def multiPartSuffix_def nPad_def toString.simps
  digit_def

lemmas example_defs = onePart_def twoParts_def bySize_def byExistence_def emptyDisk_def
  exampleDate_def

lemma onePart_parts: "videoAttachments onePart = [''a1'']"
  by (simp add: onePart_def)

lemma twoParts_parts: "videoAttachments twoParts = [''a1'', ''a2'']"
  by (simp add: twoParts_def)

lemma upt_two: "[0..<2] = [0, Suc 0]"
  by (simp add: upt_rec)

text \<open>
  Scenario 1 of the specification: the template \<^verbatim>\<open>%channelTitle%/%videoTitle%\<close>, the
  channel \<^verbatim>\<open>Linus\<close> and the title \<^verbatim>\<open>Ep 1 - Intro\<close> give the folder \<^verbatim>\<open>Linus\<close> and
  the file \<^verbatim>\<open>Linus/Ep 1 Intro\<close>.
\<close>

lemma onePart_paths:
  "folderPath bySize onePart = ''Linus''"
  "filePath (\<lambda>s. s) bySize onePart = ''Linus/Ep 1 Intro''"
  "partPath (\<lambda>s. s) bySize onePart 0 ''partial'' = ''Linus/Ep 1 Intro.partial''"
  "partPath (\<lambda>s. s) bySize onePart 0 ''mp4'' = ''Linus/Ep 1 Intro.mp4''"
  by (simp_all add: path_defs example_defs)

text \<open>Scenario 2: the files of a two-part video end in \<^verbatim>\<open> - Part 1\<close> and \<^verbatim>\<open> - Part 2\<close>.\<close>

lemma twoParts_paths:
  "partPath (\<lambda>s. s) bySize twoParts 0 ''mp4'' = ''Linus/Ep 1 Intro - Part 1.mp4''"
  "partPath (\<lambda>s. s) bySize twoParts (Suc 0) ''mp4'' = ''Linus/Ep 1 Intro - Part 2.mp4''"
  "partPath (\<lambda>s. s) bySize twoParts 0 ''partial'' = ''Linus/Ep 1 Intro - Part 1.partial''"
  "partPath (\<lambda>s. s) bySize twoParts (Suc 0) ''partial'' = ''Linus/Ep 1 Intro - Part 2.partial''"
  by (simp_all add: path_defs example_defs)

lemma byExistence_paths:
  "partPath san byExistence v i extension = partPath san bySize v i extension"
  by (simp add: partPath_def filePath_def folderPath_def fullPath_def byExistence_def)

section \<open>The sum of the observed sizes\<close>

lemma fold_add_sum_list:
  "fold (\<lambda>i bytes. bytes + f i) xs (a::int) = a + sum_list (map f xs)"
  by (induction xs arbitrary: a) simp_all

lemma fileBytes_sum_list:
  "fileBytes san st fs v extension =
     (\<Sum>i\<leftarrow>[0..<length (videoAttachments v)]. getFileBytes fs (partPath san st v i extension))"
  by (simp add: fileBytes_def fold_add_sum_list)

lemma getFileBytes_sum_split:
  "(\<Sum>i\<leftarrow>xs. getFileBytes fs (p i)) =
     (\<Sum>i\<leftarrow>xs. case fs (p i) of None \<Rightarrow> 0 | Some n \<Rightarrow> int n)
       - int (length (filter (\<lambda>i. fs (p i) = None) xs))"
  by (induction xs) (auto simp add: getFileBytes_def split: option.splits)

lemma getFileBytes_absent_iff: "getFileBytes fs p = - 1 \<longleftrightarrow> fs p = None"
  by (simp add: getFileBytes_def split: option.splits)

text \<open>
  Claim C4, as the specification states it, fails: a missing file does not count 0 in
  the sum. Of a two-part video whose first container has 100 bytes and whose second is
  missing, \<open>fileBytes\<close> is 99, and the sum over the files that exist is 100.
\<close>

theorem fileBytes_missing_counts_counterexample:
  "fileBytes (\<lambda>s. s) bySize firstOfTwo twoParts ''mp4'' = 99
   \<and> spec_fileBytes (\<lambda>s. s) bySize firstOfTwo twoParts ''mp4'' = 100"
  by (simp add: fileBytes_def spec_fileBytes_def twoParts_paths getFileBytes_def firstOfTwo_def
        upt_two twoParts_parts)

text \<open>
  Claim C4, amended: \<open>fileBytes extension\<close> is the sum over all attachment parts of the
  observed size of the part's file, where a missing file is observed as -1 and enters
  the sum as -1. So the result is the sum over the files that exist less the number of
  missing parts; and for a video with one attachment the result is -1 exactly when the
  file is missing, which tells a missing file from an empty one.
\<close>

theorem fileBytes_sum_of_observed:
  "fileBytes san st fs v extension =
     (\<Sum>i\<leftarrow>[0..<length (videoAttachments v)]. getFileBytes fs (partPath san st v i extension))
   \<and> fileBytes san st fs v extension =
       spec_fileBytes san st fs v extension
         - int (length (filter (\<lambda>i. fs (partPath san st v i extension) = None)
                  [0..<length (videoAttachments v)]))
   \<and> (length (videoAttachments v) = 1 \<longrightarrow>
        (fileBytes san st fs v extension = - 1 \<longleftrightarrow> fs (partPath san st v 0 extension) = None))"
proof (intro conjI impI)
  show "fileBytes san st fs v extension =
     (\<Sum>i\<leftarrow>[0..<length (videoAttachments v)]. getFileBytes fs (partPath san st v i extension))"
    by (rule fileBytes_sum_list)
  show "fileBytes san st fs v extension =
       spec_fileBytes san st fs v extension
         - int (length (filter (\<lambda>i. fs (partPath san st v i extension) = None)
                  [0..<length (videoAttachments v)]))"
    unfolding fileBytes_sum_list spec_fileBytes_def by (rule getFileBytes_sum_split)
next
  assume "length (videoAttachments v) = 1"
  then show "fileBytes san st fs v extension = - 1 \<longleftrightarrow> fs (partPath san st v 0 extension) = None"
    by (simp add: fileBytes_sum_list getFileBytes_absent_iff)
qed

theorem fileBytes_sum_of_observed_witness:
  "length (videoAttachments onePart) = 1
   \<and> fileBytes (\<lambda>s. s) bySize Map.empty onePart ''mp4'' = - 1
   \<and> fileBytes (\<lambda>s. s) bySize [''Linus/Ep 1 Intro.mp4'' \<mapsto> 0] onePart ''mp4'' = 0"
  using fileBytes_sum_of_observed [of "\<lambda>s. s" bySize Map.empty onePart "''mp4''"]
    fileBytes_sum_of_observed [of "\<lambda>s. s" bySize "[''Linus/Ep 1 Intro.mp4'' \<mapsto> 0]" onePart "''mp4''"]
  by (simp add: onePart_parts onePart_paths getFileBytes_def)

section \<open>Downloaded and muxed\<close>

text \<open>
  Claim C1, as the specification states it, fails in both directions: the sum that
  \<open>isDownloaded\<close> compares with the expected size is not the sum of the byte sizes of
  the \<^verbatim>\<open>.partial\<close> files, since a missing file counts -1 in it. Of a two-part video
  with an expected size of 500 bytes, a first part of 501 bytes and no second part,
  \<open>isDownloaded\<close> is true, though \<open>isMuxed\<close> is false and the files hold 501 bytes;
  with a first part of 500 bytes and no second part \<open>isDownloaded\<close> is false, though
  the files hold 500 bytes.
\<close>

theorem isDownloaded_partial_sizes_counterexample:
  "expectedSize firstPartOver = Some 500
   \<and> spec_fileBytes (\<lambda>s. s) bySize (files firstPartOver) twoParts ''partial'' = 501
   \<and> \<not> isMuxed (\<lambda>s. s) bySize firstPartOver twoParts
   \<and> isDownloaded (\<lambda>s. s) bySize firstPartOver twoParts
   \<and> expectedSize firstPartExact = Some 500
   \<and> spec_fileBytes (\<lambda>s. s) bySize (files firstPartExact) twoParts ''partial'' = 500
   \<and> \<not> isDownloaded (\<lambda>s. s) bySize firstPartExact twoParts"
proof -
  have o: "expectedSize firstPartOver = Some 500"
    "files firstPartOver = [''Linus/Ep 1 Intro - Part 1.partial'' \<mapsto> 501]"
    and e: "expectedSize firstPartExact = Some 500"
    "files firstPartExact = [''Linus/Ep 1 Intro - Part 1.partial'' \<mapsto> 500]"
    by (simp_all add: firstPartOver_def firstPartExact_def emptyDisk_def)
  have f: "considerAllNonPartialDownloaded bySize = False"
    by (simp add: bySize_def)
  have so: "spec_fileBytes (\<lambda>s. s) bySize (files firstPartOver) twoParts ''partial'' = 501"
    and se: "spec_fileBytes (\<lambda>s. s) bySize (files firstPartExact) twoParts ''partial'' = 500"
    by (simp_all add: spec_fileBytes_def twoParts_parts upt_two twoParts_paths o e)
  have bo: "fileBytes (\<lambda>s. s) bySize (files firstPartOver) twoParts ''partial'' = 500"
    "fileBytes (\<lambda>s. s) bySize (files firstPartOver) twoParts ''mp4'' = - 2"
    and be: "fileBytes (\<lambda>s. s) bySize (files firstPartExact) twoParts ''partial'' = 499"
    "fileBytes (\<lambda>s. s) bySize (files firstPartExact) twoParts ''mp4'' = - 2"
    by (simp_all add: fileBytes_def getFileBytes_def twoParts_parts upt_two twoParts_paths o e)
  have "\<not> isMuxed (\<lambda>s. s) bySize firstPartOver twoParts"
    "isDownloaded (\<lambda>s. s) bySize firstPartOver twoParts"
    "\<not> isDownloaded (\<lambda>s. s) bySize firstPartExact twoParts"
    by (simp_all add: isDownloaded_def isMuxed_def f bo be o(1) e(1))
  then show ?thesis using o(1) e(1) so se by simp
qed

text \<open>
  Claim C1, amended: \<open>isDownloaded\<close> is true if and only if \<open>isMuxed\<close> is true or the
  sum over all attachment parts of the observed size of the part's \<^verbatim>\<open>.partial\<close> file,
  which is the file's byte size when it exists and -1 when it is missing, equals the
  expected size; in particular it is false when the expected size is unset and
  \<open>isMuxed\<close> is false. When the \<^verbatim>\<open>.partial\<close> file of every part exists, the sum is the
  sum of the byte sizes of the files.
\<close>

theorem isDownloaded_iff_muxed_or_partial_sum:
  "(isDownloaded san st w v \<longleftrightarrow>
      isMuxed san st w v
      \<or> Some (\<Sum>i\<leftarrow>[0..<length (videoAttachments v)].
                 case files w (filePath san st v @ multiPartSuffix v i @ ''.partial'') of
                   None \<Rightarrow> - 1 | Some n \<Rightarrow> int n) = expectedSize w)
   \<and> (expectedSize w = None \<and> \<not> isMuxed san st w v \<longrightarrow> \<not> isDownloaded san st w v)
   \<and> ((\<forall>i\<in>set [0..<length (videoAttachments v)].
          files w (filePath san st v @ multiPartSuffix v i @ ''.partial'') \<noteq> None) \<longrightarrow>
        (isDownloaded san st w v \<longleftrightarrow>
           isMuxed san st w v
           \<or> Some (\<Sum>i\<leftarrow>[0..<length (videoAttachments v)].
                      case files w (filePath san st v @ multiPartSuffix v i @ ''.partial'') of
                        None \<Rightarrow> 0 | Some n \<Rightarrow> int n) = expectedSize w))"
proof -
  let ?parts = "[0..<length (videoAttachments v)]"
  let ?path = "\<lambda>i. filePath san st v @ multiPartSuffix v i @ ''.partial''"
  have observed: "fileBytes san st (files w) v ''partial''
      = (\<Sum>i\<leftarrow>?parts. case files w (?path i) of None \<Rightarrow> - 1 | Some n \<Rightarrow> int n)"
    by (simp add: fileBytes_sum_list getFileBytes_def partPath_def)
  have first: "isDownloaded san st w v \<longleftrightarrow>
      isMuxed san st w v
      \<or> Some (\<Sum>i\<leftarrow>?parts. case files w (?path i) of None \<Rightarrow> - 1 | Some n \<Rightarrow> int n)
           = expectedSize w"
    by (simp add: isDownloaded_def observed)
  have second: "expectedSize w = None \<and> \<not> isMuxed san st w v \<longrightarrow> \<not> isDownloaded san st w v"
    by (simp add: isDownloaded_def)
  have third: "isDownloaded san st w v \<longleftrightarrow>
      isMuxed san st w v
      \<or> Some (\<Sum>i\<leftarrow>?parts. case files w (?path i) of None \<Rightarrow> 0 | Some n \<Rightarrow> int n)
           = expectedSize w"
    if present: "\<forall>i\<in>set ?parts. files w (?path i) \<noteq> None"
  proof -
    have "map (\<lambda>i. case files w (?path i) of None \<Rightarrow> - 1 | Some n \<Rightarrow> int n) ?parts
        = map (\<lambda>i. case files w (?path i) of None \<Rightarrow> 0 | Some n \<Rightarrow> int n) ?parts"
      using present by (intro map_cong refl) (auto split: option.splits)
    then have "(\<Sum>i\<leftarrow>?parts. case files w (?path i) of None \<Rightarrow> - 1 | Some n \<Rightarrow> int n)
        = (\<Sum>i\<leftarrow>?parts. case files w (?path i) of None \<Rightarrow> 0 | Some n \<Rightarrow> int n)"
      by (rule arg_cong [where f = sum_list])
    then show ?thesis using first by (simp only:)
  qed
  from first second third show ?thesis by blast
qed

text \<open>
  Scenario 3: no expected size, a \<^verbatim>\<open>.partial\<close> file of 500 bytes and no container.
  With the expected size recorded as 500 the same video is downloaded.
\<close>

theorem isDownloaded_iff_muxed_or_partial_sum_witness:
  "expectedSize partialOnly = None
   \<and> files partialOnly ''Linus/Ep 1 Intro.partial'' = Some 500
   \<and> \<not> isMuxed (\<lambda>s. s) bySize partialOnly onePart
   \<and> \<not> isDownloaded (\<lambda>s. s) bySize partialOnly onePart
   \<and> expectedSize partialComplete = Some 500
   \<and> files partialComplete ''Linus/Ep 1 Intro.partial'' = Some 500
   \<and> isDownloaded (\<lambda>s. s) bySize partialComplete onePart"
proof -
  have e: "expectedSize partialOnly = None"
    and f: "files partialOnly ''Linus/Ep 1 Intro.partial'' = Some 500"
    and e': "expectedSize partialComplete = Some 500"
    and f': "files partialComplete ''Linus/Ep 1 Intro.partial'' = Some 500"
    by (simp_all add: partialOnly_def partialComplete_def emptyDisk_def)
  have m: "\<not> isMuxed (\<lambda>s. s) bySize partialOnly onePart"
    by (simp add: isMuxed_def bySize_def e)
  have p: "filePath (\<lambda>s. s) bySize onePart @ multiPartSuffix onePart 0 @ ''.partial''
      = ''Linus/Ep 1 Intro.partial''"
    using onePart_paths(3) by (simp add: partPath_def)
  have present: "\<forall>i\<in>set [0..<length (videoAttachments onePart)].
      files partialComplete
        (filePath (\<lambda>s. s) bySize onePart @ multiPartSuffix onePart i @ ''.partial'') \<noteq> None"
    by (simp add: onePart_parts p f')
  have d: "isDownloaded (\<lambda>s. s) bySize partialComplete onePart"
    using isDownloaded_iff_muxed_or_partial_sum [of "\<lambda>s. s" bySize partialComplete onePart]
      present by (simp add: onePart_parts p f' e')
  from isDownloaded_iff_muxed_or_partial_sum [of "\<lambda>s. s" bySize partialOnly onePart] e f m
  have "\<not> isDownloaded (\<lambda>s. s) bySize partialOnly onePart" by blast
  then show ?thesis using e f m e' f' d by blast
qed

text \<open>
  Claim C2 at a two-part video with no file on disk and
  \<open>considerAllNonPartialDownloaded\<close> set: both containers are missing, the sum of the
  observed sizes is -2, which is not -1, and \<open>isMuxed\<close> is true.
\<close>

theorem isMuxed_two_missing_parts:
  "isMuxed (\<lambda>s. s) byExistence emptyDisk twoParts
   \<and> fileBytes (\<lambda>s. s) byExistence (files emptyDisk) twoParts ''mp4'' = - 2
   \<and> files emptyDisk (partPath (\<lambda>s. s) byExistence twoParts 0 ''mp4'') = None
   \<and> files emptyDisk (partPath (\<lambda>s. s) byExistence twoParts 1 ''mp4'') = None"
  by (simp add: isMuxed_def fileBytes_def getFileBytes_def emptyDisk_def byExistence_def upt_two
        twoParts_parts)

text \<open>
  What \<open>isMuxed\<close> does: with the setting on and one attachment it tells whether the
  container exists; with the setting off it compares the sum of the observed sizes,
  a missing container counting -1, with the expected size.
\<close>

lemma isMuxed_by_existence_one_part:
  assumes "considerAllNonPartialDownloaded st" and "length (videoAttachments v) = 1"
  shows "isMuxed san st w v \<longleftrightarrow> files w (partPath san st v 0 ''mp4'') \<noteq> None"
  using assms by (simp add: isMuxed_def fileBytes_sum_list getFileBytes_absent_iff)

lemma isMuxed_by_size:
  assumes "\<not> considerAllNonPartialDownloaded st"
  shows "isMuxed san st w v \<longleftrightarrow>
    Some (\<Sum>i\<leftarrow>[0..<length (videoAttachments v)].
            getFileBytes (files w) (partPath san st v i ''mp4'')) = expectedSize w"
  using assms by (simp add: isMuxed_def fileBytes_sum_list)

section \<open>The suffix of a part\<close>

text \<open>
  Claim C5: the suffix of a part's file names is empty if and only if the video has
  exactly one video attachment; otherwise it is \<^verbatim>\<open> - Part \<close> followed by the index
  plus one.
\<close>

theorem multiPartSuffix_empty_iff_one:
  "(multiPartSuffix v i = [] \<longleftrightarrow> length (videoAttachments v) = 1)
   \<and> (length (videoAttachments v) \<noteq> 1 \<longrightarrow>
        multiPartSuffix v i = '' - Part '' @ toString (i + 1))"
  by (simp add: multiPartSuffix_def)

theorem multiPartSuffix_empty_iff_one_witness:
  "length (videoAttachments twoParts) \<noteq> 1
   \<and> multiPartSuffix twoParts 0 = '' - Part 1'' \<and> multiPartSuffix twoParts 1 = '' - Part 2''
   \<and> multiPartSuffix twoParts 11 = '' - Part 12''
   \<and> multiPartSuffix onePart 0 = []"
  using multiPartSuffix_empty_iff_one [of twoParts 0] multiPartSuffix_empty_iff_one [of twoParts 1]
    multiPartSuffix_empty_iff_one [of twoParts 11] multiPartSuffix_empty_iff_one [of onePart 0]
  by (simp add: onePart_parts twoParts_parts toString.simps digit_def)

section \<open>The choice of a quality\<close>

lemma extendRun_append:
  "extendRun cmp d prev xs = (run, remaining) \<Longrightarrow> run @ remaining = xs"
proof (induction xs arbitrary: prev run remaining)
  case Nil
  then show ?case by simp
next
  case (Cons c xs)
  show ?case
  proof (cases "if d then cmp c prev \<ge> 0 else cmp c prev < 0")
    case True
    then have "extendRun cmp d prev (c # xs) = ([], c # xs)" by simp
    then show ?thesis using Cons.prems by simp
  next
    case False
    obtain r a where e: "extendRun cmp d c xs = (r, a)"
      by (cases "extendRun cmp d c xs")
    have "extendRun cmp d prev (c # xs) = (c # r, a)" using False e by simp
    then have "run = c # r" "remaining = a" using Cons.prems by simp_all
    then show ?thesis using Cons.IH [OF e] by simp
  qed
qed

lemma countAndMakeRun_set:
  "countAndMakeRun cmp xs = (run, remaining) \<Longrightarrow> set run \<union> set remaining = set xs"
proof (induction cmp xs rule: countAndMakeRun.induct)
  case (1 cmp)
  then show ?case by simp
next
  case (2 cmp x)
  then show ?case by auto
next
  case (3 cmp elementHigh elementLow rest)
  obtain r a where e: "extendRun cmp (cmp elementLow elementHigh < 0) elementLow rest = (r, a)"
    by (cases "extendRun cmp (cmp elementLow elementHigh < 0) elementLow rest")
  from extendRun_append [OF e] have s: "set r \<union> set a = set rest" by auto
  have "remaining = a"
    and "set run = insert elementHigh (insert elementLow (set r))"
    using "3.prems" e by (auto split: if_splits)
  then show ?case using s by auto
qed

lemma set_binaryInsert: "set (binaryInsert cmp pivot ys) = insert pivot (set ys)"
proof -
  let ?l = "insertionPoint cmp pivot ys 0 (length ys)"
  have "set (take ?l ys) \<union> set (drop ?l ys) = set ys"
    by (metis append_take_drop_id set_append)
  then show ?thesis by (auto simp add: binaryInsert_def)
qed

lemma set_fold_binaryInsert:
  "set (fold (binaryInsert cmp) remaining run) = set run \<union> set remaining"
  by (induction remaining arbitrary: run) (auto simp add: set_binaryInsert)

lemma set_sortBy: "set (sortBy cmp xs) = set xs"
proof -
  obtain run remaining where c: "countAndMakeRun cmp xs = (run, remaining)"
    by (cases "countAndMakeRun cmp xs")
  then show ?thesis
    using countAndMakeRun_set [OF c] by (simp add: sortBy_def set_fold_binaryInsert)
qed

lemma sortBy_Nil_iff: "sortBy cmp xs = [] \<longleftrightarrow> xs = []"
  using set_sortBy [of cmp xs] by (metis set_empty)

lemma insertionPoint_spec:
  "left \<le> right \<Longrightarrow>
     left \<le> insertionPoint cmp pivot ys left right
     \<and> insertionPoint cmp pivot ys left right \<le> right
     \<and> (insertionPoint cmp pivot ys left right = left
          \<or> \<not> cmp pivot (ys ! (insertionPoint cmp pivot ys left right - 1)) < 0)
     \<and> (insertionPoint cmp pivot ys left right = right
          \<or> cmp pivot (ys ! insertionPoint cmp pivot ys left right) < 0)"
proof (induction cmp pivot ys left right rule: insertionPoint.induct)
  case (1 cmp pivot ys left right)
  let ?mid = "left + (right - left) div 2"
  show ?case
  proof (cases "left < right")
    case False
    then show ?thesis using "1.prems" by (simp add: insertionPoint.simps)
  next
    case True
    then have m: "left \<le> ?mid" "?mid < right" by auto
    show ?thesis
    proof (cases "cmp pivot (ys ! ?mid) < 0")
      case lower: True
      have e: "insertionPoint cmp pivot ys left right = insertionPoint cmp pivot ys left ?mid"
        using True lower by (subst insertionPoint.simps) simp
      from "1.IH"(1) [OF True lower m(1)] show ?thesis
        unfolding e using m lower by auto
    next
      case upper: False
      have e: "insertionPoint cmp pivot ys left right = insertionPoint cmp pivot ys (?mid + 1) right"
        using True upper by (subst insertionPoint.simps) simp
      have "?mid + 1 \<le> right" using m by simp
      from "1.IH"(2) [OF True upper this] show ?thesis
        unfolding e using m upper by auto
    qed
  qed
qed


lemma descending_numeric:
  "toNum a = Some x \<Longrightarrow> toNum b = Some y \<Longrightarrow> descending toNum a b = y - x"
  by (simp add: descending_def)

lemma descending_less:
  assumes "toNum a \<noteq> None" and "toNum b \<noteq> None"
  shows "descending toNum a b < 0 \<longleftrightarrow> the (toNum b) < the (toNum a)"
  using assms by (auto simp add: descending_def)

lemma extendRun_ascending:
  assumes "extendRun (descending toNum) False prev xs = (run, remaining)"
    and "toNum prev \<noteq> None" and "\<forall>l\<in>set xs. toNum l \<noteq> None"
  shows "\<forall>l\<in>set run. the (toNum l) \<le> the (toNum prev)"
  using assms
proof (induction xs arbitrary: prev run remaining)
  case Nil
  then show ?case by simp
next
  case (Cons c xs)
  show ?case
  proof (cases "descending toNum c prev < 0")
    case True
    then show ?thesis using Cons.prems by simp
  next
    case False
    obtain r a where e: "extendRun (descending toNum) False c xs = (r, a)"
      by (cases "extendRun (descending toNum) False c xs")
    have run: "run = c # r" using Cons.prems(1) False e by simp
    have c: "toNum c \<noteq> None" using Cons.prems(3) by simp
    have le: "the (toNum c) \<le> the (toNum prev)"
      using False descending_less [OF c Cons.prems(2)] by simp
    have "\<forall>l\<in>set r. the (toNum l) \<le> the (toNum c)"
      using Cons.IH [OF e c] Cons.prems(3) by simp
    then show ?thesis using run le by auto
  qed
qed

lemma extendRun_descending:
  assumes "extendRun (descending toNum) True prev xs = (run, remaining)"
    and "toNum prev \<noteq> None" and "\<forall>l\<in>set xs. toNum l \<noteq> None"
  shows "\<forall>l\<in>set (prev # run). the (toNum l) \<le> the (toNum (last (prev # run)))"
  using assms
proof (induction xs arbitrary: prev run remaining)
  case Nil
  then show ?case by simp
next
  case (Cons c xs)
  show ?case
  proof (cases "descending toNum c prev \<ge> 0")
    case True
    then show ?thesis using Cons.prems by simp
  next
    case False
    obtain r a where e: "extendRun (descending toNum) True c xs = (r, a)"
      by (cases "extendRun (descending toNum) True c xs")
    have run: "run = c # r" using Cons.prems(1) False e by simp
    have c: "toNum c \<noteq> None" using Cons.prems(3) by simp
    have less: "the (toNum prev) < the (toNum c)"
      using False descending_less [OF c Cons.prems(2)] by simp
    have ih: "\<forall>l\<in>set (c # r). the (toNum l) \<le> the (toNum (last (c # r)))"
      using Cons.IH [OF e c] Cons.prems(3) by simp
    then have "the (toNum c) \<le> the (toNum (last (c # r)))" by simp
    then have "the (toNum prev) \<le> the (toNum (last (c # r)))" using less by simp
    then show ?thesis using run ih by simp
  qed
qed

lemma countAndMakeRun_greatest:
  assumes "countAndMakeRun (descending toNum) xs = (run, remaining)"
    and "\<forall>l\<in>set xs. toNum l \<noteq> None"
  shows "\<forall>l\<in>set run. the (toNum l) \<le> the (toNum (hd run))"
proof (cases xs)
  case Nil
  then show ?thesis using assms by simp
next
  case (Cons x0 xs')
  show ?thesis
  proof (cases xs')
    case Nil
    then show ?thesis using assms Cons by auto
  next
    case (Cons x1 rest)
    let ?d = "descending toNum x1 x0 < 0"
    obtain r a where e: "extendRun (descending toNum) ?d x1 rest = (r, a)"
      by (cases "extendRun (descending toNum) ?d x1 rest")
    have n: "toNum x0 \<noteq> None" "toNum x1 \<noteq> None" "\<forall>l\<in>set rest. toNum l \<noteq> None"
      using assms(2) \<open>xs = x0 # xs'\<close> Cons by simp_all
    show ?thesis
    proof (cases ?d)
      case True
      then have run: "run = rev (x0 # x1 # r)"
        using assms(1) \<open>xs = x0 # xs'\<close> Cons e by simp
      have e': "extendRun (descending toNum) True x1 rest = (r, a)" using e True by simp
      have top: "\<forall>l\<in>set (x1 # r). the (toNum l) \<le> the (toNum (last (x1 # r)))"
        by (rule extendRun_descending [OF e' n(2) n(3)])
      have "the (toNum x0) < the (toNum x1)"
        using True descending_less [OF n(2) n(1)] by simp
      moreover have "the (toNum x1) \<le> the (toNum (last (x1 # r)))" using top by simp
      ultimately have "the (toNum x0) \<le> the (toNum (last (x1 # r)))" by simp
      moreover have "hd run = last (x1 # r)"
        unfolding run by (simp add: hd_rev)
      ultimately show ?thesis using top run by auto
    next
      case False
      then have run: "run = x0 # x1 # r"
        using assms(1) \<open>xs = x0 # xs'\<close> Cons e by simp
      have e': "extendRun (descending toNum) False x1 rest = (r, a)" using e False by simp
      have below: "\<forall>l\<in>set r. the (toNum l) \<le> the (toNum x1)"
        by (rule extendRun_ascending [OF e' n(2) n(3)])
      have "the (toNum x1) \<le> the (toNum x0)"
        using False descending_less [OF n(2) n(1)] by simp
      then show ?thesis using below run by fastforce
    qed
  qed
qed

lemma binaryInsert_greatest:
  assumes "\<forall>l\<in>set ys. the (toNum l) \<le> the (toNum (hd ys))"
    and "toNum pivot \<noteq> None" and "\<forall>l\<in>set ys. toNum l \<noteq> None"
  shows "\<forall>l\<in>set (binaryInsert (descending toNum) pivot ys).
           the (toNum l) \<le> the (toNum (hd (binaryInsert (descending toNum) pivot ys)))"
proof (cases "ys = []")
  case True
  then show ?thesis by (simp add: binaryInsert_def insertionPoint.simps)
next
  case False
  let ?p = "insertionPoint (descending toNum) pivot ys 0 (length ys)"
  have spec: "?p \<le> length ys"
    "?p = 0 \<or> \<not> descending toNum pivot (ys ! (?p - 1)) < 0"
    "?p = length ys \<or> descending toNum pivot (ys ! ?p) < 0"
    using insertionPoint_spec [of 0 "length ys" "descending toNum" pivot ys] by simp_all
  have hd: "hd ys \<in> set ys" "toNum (hd ys) \<noteq> None" using False assms(3) by simp_all
  show ?thesis
  proof (cases "?p = 0")
    case True
    then have b: "binaryInsert (descending toNum) pivot ys = pivot # ys"
      by (simp add: binaryInsert_def)
    have "descending toNum pivot (ys ! 0) < 0" using spec(3) True False by simp
    then have "descending toNum pivot (hd ys) < 0" using False by (simp add: hd_conv_nth)
    then have "the (toNum (hd ys)) < the (toNum pivot)"
      using descending_less [OF assms(2) hd(2)] by simp
    then show ?thesis unfolding b using assms(1) by fastforce
  next
    case pos: False
    then have h: "hd (binaryInsert (descending toNum) pivot ys) = hd ys"
      using False by (simp add: binaryInsert_def)
    have in_ys: "ys ! (?p - 1) \<in> set ys" using pos spec(1) by simp
    then have n: "toNum (ys ! (?p - 1)) \<noteq> None" using assms(3) by blast
    have "\<not> descending toNum pivot (ys ! (?p - 1)) < 0" using spec(2) pos by simp
    then have "the (toNum pivot) \<le> the (toNum (ys ! (?p - 1)))"
      using descending_less [OF assms(2) n] by simp
    moreover have "the (toNum (ys ! (?p - 1))) \<le> the (toNum (hd ys))"
      using assms(1) in_ys by blast
    ultimately have "the (toNum pivot) \<le> the (toNum (hd ys))" by simp
    then show ?thesis unfolding h using assms(1) by (simp add: set_binaryInsert)
  qed
qed

lemma fold_binaryInsert_greatest:
  assumes "\<forall>l\<in>set run. the (toNum l) \<le> the (toNum (hd run))"
    and "\<forall>l\<in>set run. toNum l \<noteq> None" and "\<forall>l\<in>set remaining. toNum l \<noteq> None"
  shows "\<forall>l\<in>set (fold (binaryInsert (descending toNum)) remaining run).
           the (toNum l)
             \<le> the (toNum (hd (fold (binaryInsert (descending toNum)) remaining run)))"
  using assms
proof (induction remaining arbitrary: run)
  case Nil
  then show ?case by simp
next
  case (Cons pivot remaining)
  have p: "toNum pivot \<noteq> None" using Cons.prems(3) by simp
  have a: "\<forall>l\<in>set (binaryInsert (descending toNum) pivot run).
      the (toNum l) \<le> the (toNum (hd (binaryInsert (descending toNum) pivot run)))"
    by (rule binaryInsert_greatest [OF Cons.prems(1) p Cons.prems(2)])
  have b: "\<forall>l\<in>set (binaryInsert (descending toNum) pivot run). toNum l \<noteq> None"
    using Cons.prems(2) p by (simp add: set_binaryInsert)
  have c: "\<forall>l\<in>set remaining. toNum l \<noteq> None" using Cons.prems(3) by simp
  from Cons.IH [OF a b c] show ?case by simp
qed

text \<open>With numeric labels the first label after sorting has the greatest number.\<close>

lemma hd_sortBy_greatest:
  assumes "\<forall>l\<in>set xs. toNum l \<noteq> None" and "xs \<noteq> []"
  shows "\<forall>l\<in>set xs. the (toNum l) \<le> the (toNum (hd (sortBy (descending toNum) xs)))"
proof -
  obtain run remaining where c: "countAndMakeRun (descending toNum) xs = (run, remaining)"
    by (cases "countAndMakeRun (descending toNum) xs")
  have s: "set run \<union> set remaining = set xs" by (rule countAndMakeRun_set [OF c])
  have a: "\<forall>l\<in>set run. the (toNum l) \<le> the (toNum (hd run))"
    by (rule countAndMakeRun_greatest [OF c assms(1)])
  have b: "\<forall>l\<in>set run. toNum l \<noteq> None" "\<forall>l\<in>set remaining. toNum l \<noteq> None"
    using s assms(1) by auto
  have "\<forall>l\<in>set (sortBy (descending toNum) xs).
      the (toNum l) \<le> the (toNum (hd (sortBy (descending toNum) xs)))"
    using fold_binaryInsert_greatest [OF a b] c by (simp add: sortBy_def)
  then show ?thesis by (simp add: set_sortBy)
qed

lemma elementAt_0: "xs \<noteq> [] \<Longrightarrow> elementAt xs 0 = Some (hd xs)"
  by (cases xs) (simp_all add: elementAt_def)

text \<open>
  Claim C7, as the specification states it, fails for a ticket with a label that is no
  number: the comparison with such a label is \<^verbatim>\<open>NaN\<close>, the sort leaves it where it
  is, and a request for a quality that is not listed selects it, although a numeric
  label is available.
\<close>

theorem downloadQuality_not_numeric_counterexample:
  "map name (qualityLevels mixedTicket) = [''auto'', ''720'']
   \<and> toNumber examplePlatform ''auto'' = None
   \<and> toNumber examplePlatform ''720'' = Some 720
   \<and> downloadQuality examplePlatform mixedTicket ''4k'' = Some ''auto''"
proof -
  have n: "map name (qualityLevels mixedTicket) = [''auto'', ''720'']"
    by (simp add: mixedTicket_def)
  have d: "decimal ''auto'' = None" "decimal ''720'' = Some 720"
    by (simp_all add: decimal_def)
  have t: "toNumber examplePlatform = decimal"
    by (simp add: examplePlatform_def)
  have "availableQualities examplePlatform mixedTicket = [''auto'', ''720'']"
    by (simp add: availableQualities_def n t sortBy_def descending_def d)
  then have "downloadQuality examplePlatform mixedTicket ''4k'' = Some ''auto''"
    by (simp add: downloadQuality_def elementAt_def)
  then show ?thesis using n d t by simp
qed

text \<open>
  Claim C7, amended: the selected quality is the requested label when it is among the
  available labels; otherwise, for a delivery ticket with a non-empty list of quality
  labels that all denote numbers, it is an available label of the greatest number.
\<close>

theorem downloadQuality_requested_or_highest:
  "(quality \<in> set (map name (qualityLevels cdnInfo)) \<longrightarrow>
      downloadQuality pf cdnInfo quality = Some quality)
   \<and> (qualityLevels cdnInfo \<noteq> []
        \<and> (\<forall>l\<in>set (map name (qualityLevels cdnInfo)). toNumber pf l \<noteq> None)
        \<and> quality \<notin> set (map name (qualityLevels cdnInfo)) \<longrightarrow>
      (\<exists>l\<in>set (map name (qualityLevels cdnInfo)).
         downloadQuality pf cdnInfo quality = Some l
         \<and> (\<forall>l'\<in>set (map name (qualityLevels cdnInfo)).
               the (toNumber pf l') \<le> the (toNumber pf l))))"
proof (intro conjI impI)
  let ?labels = "map name (qualityLevels cdnInfo)"
  let ?sorted = "availableQualities pf cdnInfo"
  have s: "set ?sorted = set ?labels"
    by (simp add: availableQualities_def set_sortBy)
  {
    assume "quality \<in> set ?labels"
    then show "downloadQuality pf cdnInfo quality = Some quality"
      using s by (simp add: downloadQuality_def)
  }
  assume a: "qualityLevels cdnInfo \<noteq> []
    \<and> (\<forall>l\<in>set ?labels. toNumber pf l \<noteq> None) \<and> quality \<notin> set ?labels"
  then have ne: "?labels \<noteq> []" by simp
  then have sne: "?sorted \<noteq> []"
    by (simp add: availableQualities_def sortBy_Nil_iff)
  have hd_in: "hd ?sorted \<in> set ?labels"
    using sne s by (metis hd_in_set)
  have numeric: "\<forall>l\<in>set ?labels. toNumber pf l \<noteq> None"
    using a by blast
  have top: "\<forall>l'\<in>set ?labels. the (toNumber pf l') \<le> the (toNumber pf (hd ?sorted))"
    unfolding availableQualities_def by (rule hd_sortBy_greatest [OF numeric ne])
  have "downloadQuality pf cdnInfo quality = Some (hd ?sorted)"
    using a s sne by (simp add: downloadQuality_def elementAt_0)
  then show "\<exists>l\<in>set ?labels. downloadQuality pf cdnInfo quality = Some l
      \<and> (\<forall>l'\<in>set ?labels. the (toNumber pf l') \<le> the (toNumber pf l))"
    using hd_in top by blast
qed

lemma decimal_labels:
  "decimal ''1080'' = Some 1080" "decimal ''720'' = Some 720" "decimal ''480'' = Some 480"
  "decimal ''4k'' = None"
  by (simp_all add: decimal_def)

lemma availableQualities_example:
  "availableQualities examplePlatform exampleTicket = [''1080'', ''720'', ''480'']"
  "availableQualities examplePlatform shuffledTicket = [''1080'', ''720'', ''480'']"
  by (simp_all add: availableQualities_def sortBy_def binaryInsert_def insertionPoint.simps
        descending_def decimal_labels examplePlatform_def exampleTicket_def shuffledTicket_def)

text \<open>
  Labels that are not all numbers: the runtime's sort puts 1080 first here, by the
  comparisons it happens to make.
\<close>

lemma sortBy_not_numeric_example:
  "sortBy (descending decimal) [''480'', ''720'', ''auto'', ''1080'']
     = [''1080'', ''720'', ''480'', ''auto'']"
proof -
  have d: "decimal ''auto'' = None"
    by (simp add: decimal_def)
  show ?thesis
    by (simp add: sortBy_def binaryInsert_def insertionPoint.simps descending_def
          decimal_labels d)
qed

text \<open>
  Scenario 5: from the labels 1080, 720 and 480 a request for 720 selects 720 and a
  request for 4k selects 1080, also when the ticket lists the labels in another order.
\<close>

theorem downloadQuality_requested_or_highest_witness:
  "map name (qualityLevels exampleTicket) = [''1080'', ''720'', ''480'']
   \<and> toNumber examplePlatform ''1080'' = Some 1080
   \<and> toNumber examplePlatform ''720'' = Some 720
   \<and> toNumber examplePlatform ''480'' = Some 480
   \<and> downloadQuality examplePlatform exampleTicket ''720'' = Some ''720''
   \<and> downloadQuality examplePlatform exampleTicket ''4k'' = Some ''1080''
   \<and> downloadQuality examplePlatform shuffledTicket ''4k'' = Some ''1080''"
proof -
  have n: "map name (qualityLevels exampleTicket) = [''1080'', ''720'', ''480'']"
    "toNumber examplePlatform ''1080'' = Some 1080"
    "toNumber examplePlatform ''720'' = Some 720"
    "toNumber examplePlatform ''480'' = Some 480"
    by (simp_all add: exampleTicket_def examplePlatform_def decimal_labels)
  from downloadQuality_requested_or_highest [of "''720''" exampleTicket examplePlatform]
  have a: "downloadQuality examplePlatform exampleTicket ''720'' = Some ''720''"
    by (simp add: n)
  have h: "qualityLevels exampleTicket \<noteq> []
    \<and> (\<forall>l\<in>set (map name (qualityLevels exampleTicket)). toNumber examplePlatform l \<noteq> None)
    \<and> ''4k'' \<notin> set (map name (qualityLevels exampleTicket))"
    unfolding n by (simp add: n exampleTicket_def)
  from downloadQuality_requested_or_highest [of "''4k''" exampleTicket examplePlatform] h
  obtain l where l: "l \<in> set (map name (qualityLevels exampleTicket))"
    "downloadQuality examplePlatform exampleTicket ''4k'' = Some l"
    "\<forall>l'\<in>set (map name (qualityLevels exampleTicket)).
        the (toNumber examplePlatform l') \<le> the (toNumber examplePlatform l)"
    by blast
  have "l = ''1080''"
    using l(1,3) unfolding n by (auto simp add: n)
  then have b: "downloadQuality examplePlatform exampleTicket ''4k'' = Some ''1080''"
    using l(2) by simp
  have c: "downloadQuality examplePlatform shuffledTicket ''4k'' = Some ''1080''"
    by (simp add: downloadQuality_def availableQualities_example elementAt_def)
  from n a b c show ?thesis by blast
qed

section \<open>Download\<close>

lemma sanitize_example: "sanitize examplePlatform = (\<lambda>s. s)"
  by (simp add: examplePlatform_def)

lemma partialComplete_downloaded: "isDownloaded (\<lambda>s. s) bySize partialComplete onePart"
  by (simp add: isDownloaded_def fileBytes_def onePart_parts onePart_paths getFileBytes_def
        partialComplete_def partialOnly_def emptyDisk_def)

lemma emptyDisk_not_downloaded: "\<not> isDownloaded (\<lambda>s. s) bySize emptyDisk onePart"
  by (simp add: isDownloaded_def isMuxed_def bySize_def emptyDisk_def)

text \<open>
  Claim C9: when \<open>isDownloaded\<close> is true, \<open>download\<close> fails with
  \<open>AlreadyDownloaded\<close> and leaves the world as it was: nothing is added to the trace (no
  folder made, no artwork or sidecar file written, no delivery ticket requested, no
  transfer started) and no file changes.
\<close>

theorem download_already_downloaded:
  "isDownloaded (sanitize pf) st w v \<Longrightarrow>
     download pf st v quality w = (Inl (AlreadyDownloaded (title v)), w)"
  by (simp add: download_def)

theorem download_already_downloaded_witness:
  "isDownloaded (sanitize examplePlatform) bySize partialComplete onePart
   \<and> download examplePlatform bySize onePart ''1080'' partialComplete
       = (Inl (AlreadyDownloaded ''Ep 1 - Intro''), partialComplete)"
proof -
  have d: "isDownloaded (sanitize examplePlatform) bySize partialComplete onePart"
    by (simp add: sanitize_example partialComplete_downloaded)
  from download_already_downloaded [OF d, of "''1080''"] d show ?thesis
    by (simp add: onePart_def)
qed

lemma downloadPart_edges_absent:
  "edges (cdnDelivery pf (videoAttachments v ! i)) = None \<Longrightarrow>
     downloadPart pf st v quality i w
       = (Inl NoEdgesAvailable, logged [Delivery (videoAttachments v ! i)] w)"
  by (simp add: downloadPart_def)

lemma downloadPart_edges_empty:
  "edges (cdnDelivery pf (videoAttachments v ! i)) = Some [] \<Longrightarrow>
     downloadPart pf st v quality i w
       = (Inl TypeError, logged [Delivery (videoAttachments v ! i)] w)"
  by (simp add: downloadPart_def elementAt_def)

text \<open>
  A video that is not downloaded does reach the outside world: the folder is made, the
  ticket requested and the transfer started.
\<close>

lemma download_example:
  "download examplePlatform bySize onePart ''4k'' emptyDisk
     = (Inr [\<lparr>url = ''https://edge01.example/Videos/1080.mp4?token=t0'',
              target = ''Linus/Ep 1 Intro.partial'', setsExpectedSize = True\<rparr>],
        emptyDisk\<lparr>trace := [Mkdir ''Linus'', Delivery ''a1'',
          Transfer ''https://edge01.example/Videos/1080.mp4?token=t0''
            ''Linus/Ep 1 Intro.partial'']\<rparr>)"
proof -
  have o: "thumbnail onePart = None" "saveNfo bySize = False" "trace emptyDisk = []"
    "expectedSize emptyDisk = None" "downloadEdge bySize = []"
    "fsError examplePlatform emptyDisk (Mkdir ''Linus'') = None"
    by (simp_all add: onePart_def bySize_def emptyDisk_def examplePlatform_def)
  have t: "cdnDelivery examplePlatform a = exampleTicket" for a
    by (simp add: examplePlatform_def)
  have r: "random examplePlatform i = 0" for i
    by (simp add: examplePlatform_def)
  have e: "edges exampleTicket = Some [\<lparr>hostname = ''edge01.example''\<rparr>]"
    "uri exampleTicket = ''/Videos/{qualityLevels}.mp4?token={token}''"
    "token exampleTicket = ''t0''"
    by (simp_all add: exampleTicket_def)
  have q: "downloadQuality examplePlatform exampleTicket ''4k'' = Some ''1080''"
    by (simp add: downloadQuality_def availableQualities_example elementAt_def)
  have u: "replaceFirst ''{token}'' ''t0''
             (replaceFirst ''{qualityLevels}'' ''1080''
                ''/Videos/{qualityLevels}.mp4?token={token}'') = ''/Videos/1080.mp4?token=t0''"
    by (simp add: replaceFirst_def)
  have p: "downloadPart examplePlatform bySize onePart ''4k'' 0 w
       = (Inr \<lparr>url = ''https://edge01.example/Videos/1080.mp4?token=t0'',
                target = ''Linus/Ep 1 Intro.partial'', setsExpectedSize = (expectedSize w = None)\<rparr>,
          logged [Transfer ''https://edge01.example/Videos/1080.mp4?token=t0''
                    ''Linus/Ep 1 Intro.partial''] (logged [Delivery ''a1''] w))" for w
    by (simp add: downloadPart_def Let_def t r e q u o elementAt_def sanitize_example
          onePart_paths onePart_parts)
  show ?thesis
    by (simp add: download_def sanitize_example emptyDisk_not_downloaded onePart_parts o p
          onePart_paths logged_def)
qed

text \<open>
  With a template without a folder the folder to make is the empty path; the file
  system rejects it, and the download ends there.
\<close>

lemma download_flat_template:
  "download examplePlatform flat onePart ''1080'' emptyDisk
     = (Inl (FsError ''ENOENT''), emptyDisk)"
proof -
  have f: "folderPath flat onePart = []"
    by (simp add: path_defs flat_def example_defs)
  have n: "\<not> isDownloaded (\<lambda>s. s) flat emptyDisk onePart"
    by (simp add: isDownloaded_def isMuxed_def flat_def bySize_def emptyDisk_def)
  have e: "fsError examplePlatform emptyDisk (Mkdir []) = Some ''ENOENT''"
    by (simp add: examplePlatform_def)
  show ?thesis
    by (simp add: download_def sanitize_example n f e)
qed

text \<open>
  Claim C8 at a ticket whose list of edges is empty: the list is not \<^verbatim>\<open>undefined\<close>,
  so the check for missing edges passes, the edge picked from the empty list is
  \<^verbatim>\<open>undefined\<close>, and reading its host name ends the download with a \<open>TypeError\<close>,
  not with \<open>NoEdgesAvailable\<close>. No address is built and no transfer is started. (A ticket
  without the field does end with \<open>NoEdgesAvailable\<close>: \<open>downloadPart_edges_absent\<close>.)
\<close>

theorem download_empty_edges:
  "edges (cdnDelivery noEdges ''a1'') = Some []
   \<and> download noEdges bySize onePart ''1080'' emptyDisk
       = (Inl TypeError, emptyDisk\<lparr>trace := [Mkdir ''Linus'', Delivery ''a1'']\<rparr>)"
proof -
  have e: "edges (cdnDelivery noEdges ''a1'') = Some []"
    by (simp add: noEdges_def)
  have s: "sanitize noEdges = (\<lambda>s. s)"
    by (simp add: noEdges_def examplePlatform_def)
  have o: "thumbnail onePart = None" "saveNfo bySize = False" "trace emptyDisk = []"
    "fsError noEdges emptyDisk (Mkdir ''Linus'') = None"
    by (simp_all add: onePart_def bySize_def emptyDisk_def noEdges_def examplePlatform_def)
  have p: "downloadPart noEdges bySize onePart ''1080'' 0 w
       = (Inl TypeError, logged [Delivery ''a1''] w)" for w
    using downloadPart_edges_empty [of noEdges onePart 0 bySize "''1080''" w] e
    by (simp add: onePart_parts)
  show ?thesis
    using e by (simp add: download_def s emptyDisk_not_downloaded onePart_parts o p
        onePart_paths logged_def)
qed

section \<open>Finishing a download\<close>

lemma ffmpegArguments_example:
  "ffmpegArguments examplePlatform bySize onePart 0 =
     [''-i'', ''Linus/Ep 1 Intro.partial'', ''-metadata'', ''title=Ep 1 - Intro'',
      ''-metadata'', ''AUTHOR=Linus'', ''-metadata'', ''YEAR=2023'',
      ''-metadata'', ''date=20230105'', ''-metadata'', ''description=Hello'',
      ''-metadata'', ''synopsis=Hello'', ''-c:a'', ''copy'', ''-c:v'', ''copy'',
      ''Linus/Ep 1 Intro.mp4'']"
  unfolding ffmpegArguments_def sanitize_example onePart_paths
  by (simp add: examplePlatform_def multiPartSuffix_def onePart_def exampleDate_def nPad_def
        toString.simps digit_def)

text \<open>
  Claim C3 at a single-part video with no file on disk and no expected size:
  \<open>isDownloaded\<close> is false, yet \<open>muxffmpegMetadata\<close> does not fail with
  \<open>NotDownloaded\<close>. It runs the transcoder on the part, and the error it ends with is the
  transcoder's.
\<close>

theorem muxffmpegMetadata_runs_when_not_downloaded:
  "\<not> isDownloaded (sanitize examplePlatform) bySize emptyDisk onePart
   \<and> muxffmpegMetadata examplePlatform bySize onePart emptyDisk
       = (Inl (TranscodeFailed ''No such file or directory''),
          emptyDisk\<lparr>trace :=
            [ExecFile ''./db/ffmpeg'' (ffmpegArguments examplePlatform bySize onePart 0)]\<rparr>)"
proof -
  have a: "\<not> isDownloaded (sanitize examplePlatform) bySize emptyDisk onePart"
    by (simp add: sanitize_example emptyDisk_not_downloaded)
  have b: "execFile examplePlatform Map.empty ''./db/ffmpeg''
             (ffmpegArguments examplePlatform bySize onePart 0) = Inl ''No such file or directory''"
    unfolding ffmpegArguments_example by (simp add: examplePlatform_def)
  have c: "headless bySize = False" "files emptyDisk = Map.empty" "trace emptyDisk = []"
    by (simp_all add: bySize_def emptyDisk_def)
  show ?thesis
    using a by (simp add: muxffmpegMetadata_def onePart_parts logged_def b c)
qed

text \<open>
  The same for every input: the check never fails, since the promise it negates counts
  as true whatever its value; the errors of \<open>muxffmpegMetadata\<close> are those of the
  transcoder, of \<open>markCompleted\<close> and of the file system, and the transcoder is run on
  every part.
\<close>

lemma transcodeParts_failure:
  "transcodeParts pf st v parts failure w = (Some e, w') \<Longrightarrow>
     failure = Some e \<or> (\<exists>stderr. e = TranscodeFailed stderr)"
proof (induction parts arbitrary: failure w)
  case Nil
  then show ?case by simp
next
  case (Cons i parts)
  let ?program = "if headless st then ''./ffmpeg'' else ''./db/ffmpeg''"
  let ?w1 = "logged [ExecFile ?program (ffmpegArguments pf st v i)] w"
  show ?case
  proof (cases "execFile pf (files ?w1) ?program (ffmpegArguments pf st v i)")
    case (Inl stderr)
    then have "transcodeParts pf st v parts
        (case failure of None \<Rightarrow> Some (TranscodeFailed stderr) | Some e \<Rightarrow> Some e) ?w1 = (Some e, w')"
      using Cons.prems by (simp add: Let_def)
    from Cons.IH [OF this] show ?thesis by (cases failure) auto
  next
    case (Inr fs)
    then have "transcodeParts pf st v parts failure (?w1\<lparr>files := fs\<rparr>) = (Some e, w')"
      using Cons.prems by (simp add: Let_def)
    from Cons.IH [OF this] show ?thesis .
  qed
qed

lemma cleanupParts_failure:
  "cleanupParts pf st v parts w = (Inl e, w') \<Longrightarrow> \<exists>path. e = NoSuchFile path"
proof (induction parts arbitrary: w)
  case Nil
  then show ?case by simp
next
  case (Cons i parts)
  let ?partial = "partPath (sanitize pf) st v i ''partial''"
  let ?mp4 = "partPath (sanitize pf) st v i ''mp4''"
  let ?w1 = "logged [Unlink ?partial] (w\<lparr>files := (files w)(?partial := None)\<rparr>)"
  show ?case
  proof (cases "files w ?partial = None")
    case True
    then show ?thesis using Cons.prems by (auto simp add: Let_def)
  next
    case False
    note present = this
    show ?thesis
    proof (cases "files ?w1 ?mp4 = None")
      case True
      then show ?thesis using Cons.prems present by (auto simp add: Let_def)
    next
      case False
      have "cleanupParts pf st v (i # parts) w
          = cleanupParts pf st v parts (logged [Utimes ?mp4] ?w1)"
        by (simp add: Let_def present False)
      then have "cleanupParts pf st v parts (logged [Utimes ?mp4] ?w1) = (Inl e, w')"
        using Cons.prems by simp
      from Cons.IH [OF this] show ?thesis .
    qed
  qed
qed

lemma muxffmpegMetadata_never_NotDownloaded:
  "fst (muxffmpegMetadata pf st v w) \<noteq> Inl (NotDownloaded t expected got)"
proof
  assume a: "fst (muxffmpegMetadata pf st v w) = Inl (NotDownloaded t expected got)"
  let ?parts = "[0..<length (videoAttachments v)]"
  obtain failure w1 where t: "transcodeParts pf st v ?parts None w = (failure, w1)"
    by (cases "transcodeParts pf st v ?parts None w")
  show False
  proof (cases failure)
    case (Some e)
    then have "muxffmpegMetadata pf st v w = (Inl e, w1)"
      using t by (simp add: muxffmpegMetadata_def)
    moreover have "\<exists>stderr. e = TranscodeFailed stderr"
      using transcodeParts_failure [of pf st v ?parts None w e w1] t Some by simp
    ultimately show False using a by auto
  next
    case None
    let ?w2 = "w1\<lparr>expectedSize := Some (fileBytes (sanitize pf) st (files w1) v ''mp4'')\<rparr>"
    show False
    proof (cases "isMuxed (sanitize pf) st ?w2 v")
      case False
      then have "fst (muxffmpegMetadata pf st v w) = Inl (MuxValidationFailed (title v)
          (expectedSize ?w2) (fileBytes (sanitize pf) st (files ?w2) v ''mp4''))"
        using t None by (simp add: muxffmpegMetadata_def markCompleted_def Let_def)
      then show False using a by simp
    next
      case True
      let ?w3 = "logged [MarkVideoCompleted (guid v) (millis (releaseDate v))] ?w2"
      have m: "muxffmpegMetadata pf st v w = cleanupParts pf st v ?parts ?w3"
        using t None True by (simp add: muxffmpegMetadata_def markCompleted_def Let_def)
      obtain r w4 where c: "cleanupParts pf st v ?parts ?w3 = (r, w4)"
        by (cases "cleanupParts pf st v ?parts ?w3")
      then have "r = Inl (NotDownloaded t expected got)" using a m by simp
      then have "\<exists>path. NotDownloaded t expected got = NoSuchFile path"
        using cleanupParts_failure [of pf st v ?parts ?w3 "NotDownloaded t expected got" w4] c
        by simp
      then show False by simp
    qed
  qed
qed

lemma trace_logged: "trace (logged es w) = trace w @ es"
  by (simp add: logged_def)

lemma transcodeParts_trace:
  "trace (snd (transcodeParts pf st v parts failure w)) =
     trace w @ map (\<lambda>i. ExecFile (if headless st then ''./ffmpeg'' else ''./db/ffmpeg'')
                          (ffmpegArguments pf st v i)) parts"
proof (induction parts arbitrary: failure w)
  case Nil
  then show ?case by simp
next
  case (Cons i parts)
  let ?program = "if headless st then ''./ffmpeg'' else ''./db/ffmpeg''"
  let ?w1 = "logged [ExecFile ?program (ffmpegArguments pf st v i)] w"
  show ?case
  proof (cases "execFile pf (files ?w1) ?program (ffmpegArguments pf st v i)")
    case (Inl stderr)
    then show ?thesis using Cons.IH by (simp add: Let_def trace_logged)
  next
    case (Inr fs)
    then show ?thesis using Cons.IH by (simp add: Let_def trace_logged)
  qed
qed

text \<open>A finished download is muxed, marked, and its \<^verbatim>\<open>.partial\<close> file removed.\<close>

lemma muxffmpegMetadata_example:
  "muxffmpegMetadata examplePlatform bySize onePart partialComplete
     = (Inr (), \<lparr>files = [''Linus/Ep 1 Intro.mp4'' \<mapsto> 500], expectedSize = Some 500,
                 trace = [ExecFile ''./db/ffmpeg'' (ffmpegArguments examplePlatform bySize onePart 0),
                          MarkVideoCompleted ''g1'' 1672911000000,
                          Unlink ''Linus/Ep 1 Intro.partial'',
                          Utimes ''Linus/Ep 1 Intro.mp4'']\<rparr>)"
proof -
  have b: "execFile examplePlatform [''Linus/Ep 1 Intro.partial'' \<mapsto> 500] ''./db/ffmpeg''
             (ffmpegArguments examplePlatform bySize onePart 0)
           = Inr [''Linus/Ep 1 Intro.partial'' \<mapsto> 500, ''Linus/Ep 1 Intro.mp4'' \<mapsto> 500]"
    unfolding ffmpegArguments_example by (simp add: examplePlatform_def)
  have c: "headless bySize = False" "considerAllNonPartialDownloaded bySize = False"
    "files partialComplete = [''Linus/Ep 1 Intro.partial'' \<mapsto> 500]"
    "trace partialComplete = []" "expectedSize partialComplete = Some 500"
    "guid onePart = ''g1''" "millis (releaseDate onePart) = 1672911000000"
    by (simp_all add: bySize_def partialComplete_def partialOnly_def emptyDisk_def onePart_def
          exampleDate_def)
  have d: "partialComplete = \<lparr>files = [''Linus/Ep 1 Intro.partial'' \<mapsto> 500],
      expectedSize = Some 500, trace = []\<rparr>"
    by (simp add: partialComplete_def partialOnly_def emptyDisk_def)
  show ?thesis
    unfolding d
    by (simp add: muxffmpegMetadata_def markCompleted_def isMuxed_def fileBytes_def Let_def
          getFileBytes_def onePart_parts onePart_paths logged_def sanitize_example b c(1,2,6,7)
          fun_upd_twist)
qed

section \<open>Formatting\<close>

text \<open>
  Every occurrence of a placeholder is replaced, and a token that is no placeholder
  stays.
\<close>

lemma formatString_example:
  "formatString onePart ''%year%-%month%-%day% %foo% %year% %videoTitle%''
     = ''2023-01-05 %foo% 2023 Ep 1 Intro''"
  by (simp add: path_defs example_defs)

lemma replaceFrom_no_match:
  "pat \<noteq> [] \<Longrightarrow> hd pat \<notin> set s \<Longrightarrow> replaceFrom pat repl pre s = s"
proof (induction s arbitrary: pre)
  case Nil
  then show ?case by simp
next
  case (Cons c s)
  then have "take (length pat) (c # s) \<noteq> pat"
    by (cases pat) auto
  then show ?case using Cons by simp
qed

lemma formatString_without_percent:
  "CHR ''%'' \<notin> set s \<Longrightarrow> formatString v s = s"
  by (simp add: formatString_def formatLookup_def replaceAll_def replaceFrom_no_match)

text \<open>
  Claim C6 at a title with two dollar signs: the value of \<^verbatim>\<open>%videoTitle%\<close> is
  passed to \<^verbatim>\<open>replace\<close> as a replacement pattern, where \<^verbatim>\<open>$$\<close> stands for one dollar
  sign, so the placeholder is not replaced with its value.
\<close>

theorem formatString_dollar_title:
  "videoTitle dollars = ''Save $$ now''
   \<and> formatString dollars ''%videoTitle%'' = ''Save $ now''"
  by (simp add: path_defs dollars_def example_defs)

section \<open>Prompts\<close>


end
